theory Spec2Isabelle
  imports Complex_Main
begin

section \<open>Python values used by laserTest.py\<close>

text \<open>
  Python floats are modelled as real numbers, so every arithmetic step of the source is
  exact here; the values \<open>inf\<close> and \<open>nan\<close> have no counterpart. Python integers are
  unbounded and are modelled as \<open>int\<close>.

  A message built with \<open>str.format\<close> is kept as the list of its pieces: the literal text and
  the arguments substituted for the placeholders. How a float argument is printed is not
  modelled.
\<close>

datatype fmt = Text string | Num real | Str string

type_synonym message = "fmt list"

text \<open>
  The exceptions the source can raise. \<open>BuiltinValueError\<close> is the \<open>ValueError\<close> raised by
  tuple unpacking, \<open>float()\<close> and \<open>int()\<close>; \<open>ValueError\<close> and \<open>InputArgumentError\<close> are the
  ones raised by the source's own \<open>raise\<close> statements, with their message.
\<close>

datatype error =
    BuiltinValueError
  | ValueError message
  | InputArgumentError message
  | ZeroDivisionError
  | IndexError
  | AttributeError

text \<open>\<open>s.split(c)\<close> for a one-character separator: always at least one piece.\<close>

fun str_split :: "char \<Rightarrow> string \<Rightarrow> string list" where
  "str_split c [] = [[]]"
| "str_split c (x # xs) =
     (if x = c then [] # str_split c xs
      else (case str_split c xs of
              [] \<Rightarrow> [[x]]
            | w # ws \<Rightarrow> (x # w) # ws))"

text \<open>
  \<open>round(x, 2)\<close> of Python 2: to two decimals, halves away from zero.
\<close>

definition round2 :: "real \<Rightarrow> real" where
  "round2 x = (if 0 \<le> x then real_of_int \<lfloor>x * 100 + 1 / 2\<rfloor> / 100
               else - (real_of_int \<lfloor>- x * 100 + 1 / 2\<rfloor> / 100))"

text \<open>
  The builtins \<open>float()\<close> and \<open>int()\<close> are parameters \<open>pfloat\<close> and \<open>pint\<close> of every constructor
  below (\<open>None\<close> where the builtin raises \<open>ValueError\<close>). For concrete runs,
  \<open>float_dec\<close> and \<open>int_dec\<close> read the plain decimal literals, a fragment of what the builtins
  accept on which they agree with them: an optional sign, digits and, for \<open>float_dec\<close>, an
  optional fraction.
\<close>

definition digit_val :: "char \<Rightarrow> nat option" where
  "digit_val c = map_of (zip ''0123456789'' [0, 1, 2, 3, 4, 5, 6, 7, 8, 9]) c"

fun digits_val :: "string \<Rightarrow> nat \<Rightarrow> nat option" where
  "digits_val [] acc = Some acc"
| "digits_val (c # cs) acc =
     (case digit_val c of None \<Rightarrow> None | Some d \<Rightarrow> digits_val cs (10 * acc + d))"

definition nat_dec :: "string \<Rightarrow> nat option" where
  "nat_dec s = (if s = [] then None else digits_val s 0)"

definition unsigned_dec :: "string \<Rightarrow> real option" where
  "unsigned_dec s =
     (case str_split CHR ''.'' s of
        [a] \<Rightarrow> map_option real (nat_dec a)
      | [a, b] \<Rightarrow>
          (if a = [] \<and> b = [] then None
           else (case (digits_val a 0, digits_val b 0) of
                   (Some m, Some n) \<Rightarrow> Some (real m + real n / 10 ^ length b)
                 | _ \<Rightarrow> None))
      | _ \<Rightarrow> None)"

definition float_dec :: "string \<Rightarrow> real option" where
  "float_dec s =
     (case s of
        [] \<Rightarrow> None
      | c # r \<Rightarrow>
          (if c = CHR ''-'' then map_option uminus (unsigned_dec r)
           else if c = CHR ''+'' then unsigned_dec r
           else unsigned_dec s))"

definition int_dec :: "string \<Rightarrow> int option" where
  "int_dec s =
     (case s of
        [] \<Rightarrow> None
      | c # r \<Rightarrow>
          (if c = CHR ''-'' then map_option (\<lambda>n. - int n) (nat_dec r)
           else if c = CHR ''+'' then map_option int (nat_dec r)
           else map_option int (nat_dec s)))"

section \<open>class Dimension\<close>

record Dimension =
  name :: string
  val :: real
  minVal :: real
  maxVal :: real
  count :: int
  incr :: real
  fixed :: bool
  indx :: int

text \<open>\<open>Dimension.reset\<close>: index back to 0, current value back to \<open>minVal\<close>.\<close>

definition Dimension_reset :: "Dimension \<Rightarrow> Dimension" where
  "Dimension_reset d = d\<lparr>indx := 0, val := minVal d\<rparr>"

text \<open>
  The condition under which \<open>Dimension.__init__\<close> writes its warning to stderr; the
  construction goes on either way.
\<close>

definition inconsistent_fixed_spec :: "real \<Rightarrow> real \<Rightarrow> int \<Rightarrow> bool" where
  "inconsistent_fixed_spec mn mx cnt \<longleftrightarrow>
     (mn = mx \<and> cnt \<noteq> 1) \<or> (mn \<noteq> mx \<and> cnt = 1)"

text \<open>
  \<open>Dimension.__init__\<close>. The two unpackings need exactly two pieces each; the name is
  overwritten with \<open>UNINITIALIZED\<close> here, after the subclass has set its own; \<open>val\<close> is
  \<open>None\<close> until the closing \<open>reset()\<close> sets it, written 0 in the record that \<open>reset\<close>
  receives.
\<close>

definition Dimension_init ::
  "(string \<Rightarrow> real option) \<Rightarrow> (string \<Rightarrow> int option) \<Rightarrow> string \<Rightarrow> error + Dimension" where
  "Dimension_init pfloat pint inputStr =
     (case str_split CHR '','' inputStr of
        [rangeStr, countStr] \<Rightarrow>
          (case str_split CHR '':'' rangeStr of
             [minStr, maxStr] \<Rightarrow>
               (case pfloat minStr of
                  None \<Rightarrow> Inl BuiltinValueError
                | Some mn \<Rightarrow>
                    (case pfloat maxStr of
                       None \<Rightarrow> Inl BuiltinValueError
                     | Some mx \<Rightarrow>
                         (case pint countStr of
                            None \<Rightarrow> Inl BuiltinValueError
                          | Some cnt \<Rightarrow>
                              Inr (Dimension_reset
                                \<lparr>name = ''UNINITIALIZED'', val = 0, minVal = mn, maxVal = mx,
                                 count = cnt,
                                 incr = (if cnt > 1 then (mx - mn) / real_of_int (cnt - 1)
                                         else 0),
                                 fixed = (cnt = 1 \<or> mn = mx),
                                 indx = 0\<rparr>))))
           | _ \<Rightarrow> Inl BuiltinValueError)
      | _ \<Rightarrow> Inl BuiltinValueError)"

text \<open>
  \<open>Dimension.next\<close>: the result (value or exception) and the object afterwards. The
  index is bumped before the bound is checked, so it stays bumped when the call raises.
\<close>

definition Dimension_next :: "Dimension \<Rightarrow> (error + real) \<times> Dimension" where
  "Dimension_next d =
     (if fixed d then (Inr (minVal d), d)
      else
        (let d1 = d\<lparr>indx := indx d + 1\<rparr> in
         if indx d1 \<ge> count d1 then
           (Inl (ValueError [Text ''Asked for too many next values'']), d1)
         else if count d1 - 1 = 0 then (Inl ZeroDivisionError, d1)
         else
           (let v = round2 (real_of_int (indx d1) *
                              ((maxVal d1 - minVal d1) / real_of_int (count d1 - 1))
                            + minVal d1)
            in (Inr v, d1\<lparr>val := v\<rparr>))))"

text \<open>
  \<open>k\<close> calls of \<open>next()\<close> in a row: the values returned, or the exception of the first call
  that raises, and the object afterwards.
\<close>

fun next_calls :: "nat \<Rightarrow> Dimension \<Rightarrow> (error + real list) \<times> Dimension" where
  "next_calls 0 d = (Inr [], d)"
| "next_calls (Suc k) d =
     (case Dimension_next d of
        (Inl e, d1) \<Rightarrow> (Inl e, d1)
      | (Inr v, d1) \<Rightarrow>
          (case next_calls k d1 of
             (Inl e, d2) \<Rightarrow> (Inl e, d2)
           | (Inr vs, d2) \<Rightarrow> (Inr (v # vs), d2)))"

section \<open>The machine and test constants (classes Shapeoko2 and TestParams)\<close>

definition MIN_XY_SPEED :: real where "MIN_XY_SPEED = 100"
definition MAX_XY_SPEED :: real where "MAX_XY_SPEED = 5000"
definition MIN_POWER :: real where "MIN_POWER = 0"
definition MAX_POWER :: real where "MAX_POWER = 10000"
definition MIN_Z_DISTANCE :: real where "MIN_Z_DISTANCE = 10"

text \<open>
  \<open>MAX_Z_DISTANCE\<close> is assigned twice in the body of class Shapeoko2, 100.0 and then 50.0;
  the second assignment is the one in force.
\<close>

definition MAX_Z_DISTANCE :: real where "MAX_Z_DISTANCE = 50"
definition MAX_X_DISTANCE :: real where "MAX_X_DISTANCE = 150"
definition MAX_Y_DISTANCE :: real where "MAX_Y_DISTANCE = 150"
definition KERF :: real where "KERF = 2 / 10"
definition MIN_X_SPACING :: real where "MIN_X_SPACING = 1"
definition MAX_X_SPACING :: real where "MAX_X_SPACING = 10"
definition MIN_Y_SPACING :: real where "MIN_Y_SPACING = 5"
definition MAX_Y_SPACING :: real where "MAX_Y_SPACING = 10"
definition DEF_LINE_HEIGHT :: real where "DEF_LINE_HEIGHT = 20"

section \<open>classes SpeedDim, PowerDim and DistanceDim\<close>

definition SpeedDim_init ::
  "(string \<Rightarrow> real option) \<Rightarrow> (string \<Rightarrow> int option) \<Rightarrow> string \<Rightarrow> error + Dimension" where
  "SpeedDim_init pfloat pint speedStr =
     (case Dimension_init pfloat pint speedStr of
        Inl e \<Rightarrow> Inl e
      | Inr d \<Rightarrow>
          (if minVal d < MIN_XY_SPEED then
             Inl (InputArgumentError
                    [Text ''Minimum speed to slow (< '', Num MIN_XY_SPEED, Text '')''])
           else if maxVal d > MAX_XY_SPEED then
             Inl (InputArgumentError
                    [Text ''Maximum speed to fast (> '', Num MAX_XY_SPEED, Text '')''])
           else Inr d))"

definition PowerDim_init ::
  "(string \<Rightarrow> real option) \<Rightarrow> (string \<Rightarrow> int option) \<Rightarrow> string \<Rightarrow> error + Dimension" where
  "PowerDim_init pfloat pint powerStr =
     (case Dimension_init pfloat pint powerStr of
        Inl e \<Rightarrow> Inl e
      | Inr d \<Rightarrow>
          (if minVal d < MIN_POWER then
             Inl (InputArgumentError
                    [Text ''Minimum power too low (< '', Num MIN_POWER, Text '')''])
           else if maxVal d > MAX_POWER then
             Inl (InputArgumentError
                    [Text ''Maximum power too high (> '', Num MIN_POWER, Text '')''])
           else Inr d))"

definition DistanceDim_init ::
  "(string \<Rightarrow> real option) \<Rightarrow> (string \<Rightarrow> int option) \<Rightarrow> string \<Rightarrow> error + Dimension" where
  "DistanceDim_init pfloat pint distanceStr =
     (case Dimension_init pfloat pint distanceStr of
        Inl e \<Rightarrow> Inl e
      | Inr d \<Rightarrow>
          (if minVal d < MIN_Z_DISTANCE then
             Inl (InputArgumentError
                    [Text ''Minimum distance too close (< '', Num MIN_Z_DISTANCE, Text '')''])
           else if maxVal d > MAX_Z_DISTANCE then
             Inl (InputArgumentError
                    [Text ''Maximum distance too far (> '', Num MAX_Z_DISTANCE, Text '')''])
           else Inr d))"

section \<open>class TestParams\<close>

text \<open>
  The attributes \<open>speed\<close>, \<open>power\<close> and \<open>distance\<close> hold the three Dimension objects;
  \<open>dims\<close>, \<open>varDims\<close>, \<open>xDim\<close> and \<open>yDim\<close> refer to the same objects, so they are
  modelled as references into these three and an update through \<open>xDim\<close> is seen through
  \<open>power\<close>, say. Comparing two Dimension objects (\<open>dim != self.xDim\<close>) compares their
  identity, which is the equality of references.
\<close>

datatype dimref = SpeedRef | PowerRef | DistanceRef

record TestParams =
  speed :: Dimension
  power :: Dimension
  distance :: Dimension
  lineHeight :: real
  dims :: "dimref list"
  varDims :: "dimref list"
  numFixedDims :: int
  numVarDims :: int
  numRows :: int
  numCols :: int
  xDim :: "dimref option"
  yDim :: "dimref option"
  xIncr :: real
  yIncr :: real
  width :: real
  height :: real

fun dim_of :: "Dimension \<Rightarrow> Dimension \<Rightarrow> Dimension \<Rightarrow> dimref \<Rightarrow> Dimension" where
  "dim_of s p d SpeedRef = s"
| "dim_of s p d PowerRef = p"
| "dim_of s p d DistanceRef = d"

definition get_dim :: "TestParams \<Rightarrow> dimref \<Rightarrow> Dimension" where
  "get_dim t r = dim_of (speed t) (power t) (distance t) r"

fun set_dim :: "TestParams \<Rightarrow> dimref \<Rightarrow> Dimension \<Rightarrow> TestParams" where
  "set_dim t SpeedRef d = t\<lparr>speed := d\<rparr>"
| "set_dim t PowerRef d = t\<lparr>power := d\<rparr>"
| "set_dim t DistanceRef d = t\<lparr>distance := d\<rparr>"

text \<open>
  \<open>max(varDims, key=lambda item: item.count)\<close>: the builtin keeps the first element whose
  key is maximal (a later element replaces the best one only when its key is greater), and
  raises \<open>ValueError\<close> on an empty list.
\<close>

definition max_by_count :: "(dimref \<Rightarrow> Dimension) \<Rightarrow> dimref list \<Rightarrow> error + dimref" where
  "max_by_count g ds =
     (case ds of
        [] \<Rightarrow> Inl BuiltinValueError
      | x # xs \<Rightarrow>
          Inr (foldl (\<lambda>best y. if count (g y) > count (g best) then y else best) x xs))"

text \<open>
  The axis assignment of \<open>TestParams.__init__\<close>: the pair of axes \<open>(xDim, yDim)\<close> and the
  pair \<open>(numRows, numCols)\<close>.
\<close>

definition TestParams_axes ::
  "(dimref \<Rightarrow> Dimension) \<Rightarrow> dimref list \<Rightarrow> int \<Rightarrow>
   error + ((dimref option \<times> dimref option) \<times> (int \<times> int))" where
  "TestParams_axes g vds nVar =
     (if nVar < 2 then
        (if nVar = 1 then
           (case vds of
              [] \<Rightarrow> Inl IndexError
            | v # _ \<Rightarrow> Inr ((Some v, None), (1, count (g v))))
         else Inr ((None, None), (1, 1)))
      else
        (case max_by_count g vds of
           Inl e \<Rightarrow> Inl e
         | Inr x \<Rightarrow>
             (case filter (\<lambda>dim. dim \<noteq> x) vds of
                [] \<Rightarrow> Inl IndexError
              | y # _ \<Rightarrow> Inr ((Some x, Some y), (count (g y), count (g x))))))"

text \<open>The name of an axis for an error message; reading it off \<open>None\<close> raises.\<close>

definition axis_name :: "(dimref \<Rightarrow> Dimension) \<Rightarrow> dimref option \<Rightarrow> error + string" where
  "axis_name g ax = (case ax of None \<Rightarrow> Inl AttributeError | Some r \<Rightarrow> Inr (name (g r)))"

text \<open>The increment in X for each new column.\<close>

definition TestParams_xIncr ::
  "(dimref \<Rightarrow> Dimension) \<Rightarrow> int \<Rightarrow> dimref option \<Rightarrow> error + real" where
  "TestParams_xIncr g nCols xd =
     (if nCols \<le> 1 then Inr 0
      else
        (let xi = MAX_X_DISTANCE / real_of_int (nCols - 1) in
         if xi - KERF < MIN_X_SPACING then
           (case axis_name g xd of
              Inl e \<Rightarrow> Inl e
            | Inr n \<Rightarrow>
                Inl (InputArgumentError
                       [Text ''Too many columns; reduce '', Str n, Text '' count'']))
         else if xi > MAX_X_SPACING then Inr MAX_X_SPACING
         else Inr xi))"

text \<open>The increment in Y for each new row, from the base of the previous row.\<close>

definition TestParams_yIncr ::
  "(dimref \<Rightarrow> Dimension) \<Rightarrow> real \<Rightarrow> int \<Rightarrow> dimref option \<Rightarrow> error + real" where
  "TestParams_yIncr g lh nRows yd =
     (if nRows < 2 then Inr 0
      else
        (let yi = (MAX_Y_DISTANCE - lh) / real_of_int (nRows - 1) in
         if yi - lh < MIN_Y_SPACING then
           (case axis_name g yd of
              Inl e \<Rightarrow> Inl e
            | Inr n \<Rightarrow>
                Inl (InputArgumentError [Text ''Too many rows; reduct count of '', Str n]))
         else if yi > MAX_Y_SPACING then Inr (lh + MAX_Y_SPACING)
         else Inr yi))"

definition TestParams_init ::
  "(string \<Rightarrow> real option) \<Rightarrow> (string \<Rightarrow> int option) \<Rightarrow>
   string \<Rightarrow> string \<Rightarrow> string \<Rightarrow> real \<Rightarrow> error + TestParams" where
  "TestParams_init pfloat pint speedTuple powerTuple distanceTuple lh =
     (case SpeedDim_init pfloat pint speedTuple of
        Inl e \<Rightarrow> Inl e
      | Inr sp \<Rightarrow>
     (case PowerDim_init pfloat pint powerTuple of
        Inl e \<Rightarrow> Inl e
      | Inr pw \<Rightarrow>
     (case DistanceDim_init pfloat pint distanceTuple of
        Inl e \<Rightarrow> Inl e
      | Inr ds \<Rightarrow>
     (let g = dim_of sp pw ds;
          ads = [SpeedRef, PowerRef, DistanceRef];
          numDims = int (length ads);
          vds = filter (\<lambda>dim. \<not> fixed (g dim)) ads;
          nFixed = sum_list (map (\<lambda>b. if b then 1 else 0) [fixed sp, fixed pw, fixed ds]);
          nVar = numDims - nFixed
      in
      if nVar \<ge> numDims then
        Inl (InputArgumentError
               [Text ''Too many free dimensions, at least one must be fixed''])
      else
     (case TestParams_axes g vds nVar of
        Inl e \<Rightarrow> Inl e
      | Inr ((xd, yd), (nRows, nCols)) \<Rightarrow>
     (case TestParams_xIncr g nCols xd of
        Inl e \<Rightarrow> Inl e
      | Inr xi \<Rightarrow>
     (case TestParams_yIncr g lh nRows yd of
        Inl e \<Rightarrow> Inl e
      | Inr yi \<Rightarrow>
          Inr \<lparr>speed = sp, power = pw, distance = ds, lineHeight = lh,
               dims = ads, varDims = vds, numFixedDims = nFixed, numVarDims = nVar,
               numRows = nRows, numCols = nCols, xDim = xd, yDim = yd,
               xIncr = xi, yIncr = yi,
               width = (if nCols > 1 then xi * real_of_int (nCols - 1) + KERF else KERF),
               height = (if nRows > 1 then yi * real_of_int (nRows - 1) + lh
                         else lh)\<rparr>)))))))"

text \<open>
  \<open>nextX\<close> and \<open>nextY\<close>: the result of the \<open>next()\<close> call and the plan with the objects
  updated.
\<close>

definition TestParams_nextX :: "TestParams \<Rightarrow> (error + real) \<times> TestParams" where
  "TestParams_nextX t =
     (case xDim t of
        None \<Rightarrow> (Inl AttributeError, t)
      | Some rx \<Rightarrow>
          (case Dimension_next (get_dim t rx) of (res, d) \<Rightarrow> (res, set_dim t rx d)))"

definition TestParams_nextY :: "TestParams \<Rightarrow> (error + real) \<times> TestParams" where
  "TestParams_nextY t =
     (case xDim t of
        None \<Rightarrow> (Inl AttributeError, t)
      | Some rx \<Rightarrow>
          (let t1 = set_dim t rx (Dimension_reset (get_dim t rx)) in
           case yDim t1 of
             None \<Rightarrow> (Inl AttributeError, t1)
           | Some ry \<Rightarrow>
               (case Dimension_next (get_dim t1 ry) of (res, d) \<Rightarrow> (res, set_dim t1 ry d))))"

section \<open>The main program: rows of columns\<close>

text \<open>
  The G-code lines that the main program composes, with their numeric arguments in place
  of the formatted text: \<open>G00 X Y Z\<close>, \<open>M03 S\<close>, \<open>G01 X Y F\<close>.
\<close>

datatype gcode =
    G21
  | G90
  | G00 real real real
  | M03 real
  | G01 real real real
  | M05

text \<open>
  The inner loop over \<open>xrange(parms.numCols)\<close>, given as the list of the column numbers
  still to do. An exception ends the program.
\<close>

fun col_loop ::
  "nat list \<Rightarrow> real \<Rightarrow> TestParams \<Rightarrow> gcode list \<Rightarrow> error + (TestParams \<times> gcode list)" where
  "col_loop [] rowBase t out = Inr (t, out)"
| "col_loop (colNum # rest) rowBase t out =
     (let x = real colNum * xIncr t;
          y = rowBase + lineHeight t;
          out1 = out @ [M03 (val (power t)), G01 x y (val (speed t)), M05]
      in
      if int colNum < numCols t - 1 then
        (case TestParams_nextX t of
           (Inl e, _) \<Rightarrow> Inl e
         | (Inr nx, t1) \<Rightarrow>
             col_loop rest rowBase t1
               (out1 @ [G00 (x + xIncr t1) rowBase (val (distance t1))]))
      else col_loop rest rowBase t out1)"

text \<open>The outer loop over \<open>xrange(parms.numRows)\<close>.\<close>

fun row_loop ::
  "nat list \<Rightarrow> TestParams \<Rightarrow> gcode list \<Rightarrow> error + (TestParams \<times> gcode list)" where
  "row_loop [] t out = Inr (t, out)"
| "row_loop (rowNum # rest) t out =
     (let rowBase = real rowNum * yIncr t in
      case col_loop [0..<nat (numCols t)] rowBase t out of
        Inl e \<Rightarrow> Inl e
      | Inr (t1, out1) \<Rightarrow>
          if int rowNum < numRows t1 - 1 then
            (case TestParams_nextY t1 of
               (Inl e, _) \<Rightarrow> Inl e
             | (Inr ny, t2) \<Rightarrow>
                 row_loop rest t2
                   (out1 @ [G00 0 (rowBase + yIncr t2) (val (distance t2))]))
          else row_loop rest t1 out1)"

text \<open>
  The generation part of the main program: preamble, the rows of columns, and the rapid
  move back to the origin.
\<close>

definition generate :: "TestParams \<Rightarrow> error + (TestParams \<times> gcode list)" where
  "generate t =
     (let startZ = val (distance t);
          preamble = [G21, G90, G00 0 0 startZ]
      in
      case row_loop [0..<nat (numRows t)] t preamble of
        Inl e \<Rightarrow> Inl e
      | Inr (t1, out) \<Rightarrow> Inr (t1, out @ [G00 0 0 startZ]))"

text \<open>
  The main program from the construction of the plan on, without the header lines, the
  dry run and the output sink: build the plan with the default line height (an exception
  there ends the program), then generate.
\<close>

definition main_program ::
  "(string \<Rightarrow> real option) \<Rightarrow> (string \<Rightarrow> int option) \<Rightarrow>
   string \<Rightarrow> string \<Rightarrow> string \<Rightarrow> error + gcode list" where
  "main_program pfloat pint speedArg powerArg distanceArg =
     (case TestParams_init pfloat pint speedArg powerArg distanceArg DEF_LINE_HEIGHT of
        Inl e \<Rightarrow> Inl e
      | Inr t \<Rightarrow>
          (case generate t of
             Inl e \<Rightarrow> Inl e
           | Inr (t1, out) \<Rightarrow> Inr out))"

section \<open>Invariants of the traversal\<close>

text \<open>
  Three predicates for the proofs about the main loops. \<open>x_ready t k\<close>: the object of the
  column axis is variable, has as many values as the plan has columns and stands at index
  \<open>k\<close>, unless the plan has at most one column. \<open>y_ready t j\<close>: the same for the row
  axis, which is another object than the column axis. \<open>x_moved t t1\<close>: the plan \<open>t1\<close> is
  \<open>t\<close> except for the index and the current value of the column axis object.
\<close>

definition x_ready :: "TestParams \<Rightarrow> int \<Rightarrow> bool" where
  "x_ready t k \<longleftrightarrow>
     numCols t \<le> 1 \<or>
     (\<exists>rx. xDim t = Some rx \<and> \<not> fixed (get_dim t rx) \<and>
        count (get_dim t rx) = numCols t \<and> indx (get_dim t rx) = k)"

definition y_ready :: "TestParams \<Rightarrow> int \<Rightarrow> bool" where
  "y_ready t j \<longleftrightarrow>
     numRows t \<le> 1 \<or>
     (\<exists>rx ry. xDim t = Some rx \<and> yDim t = Some ry \<and> rx \<noteq> ry \<and>
        \<not> fixed (get_dim t ry) \<and> count (get_dim t ry) = numRows t \<and>
        indx (get_dim t ry) = j)"

definition x_moved :: "TestParams \<Rightarrow> TestParams \<Rightarrow> bool" where
  "x_moved t t1 \<longleftrightarrow>
     t1 = t \<or>
     (\<exists>rx i v. xDim t = Some rx \<and> t1 = set_dim t rx ((get_dim t rx)\<lparr>indx := i, val := v\<rparr>))"

section \<open>Evaluation and splitting\<close>

lemmas machine_consts = MIN_XY_SPEED_def MAX_XY_SPEED_def MIN_POWER_def MAX_POWER_def
  MIN_Z_DISTANCE_def MAX_Z_DISTANCE_def MAX_X_DISTANCE_def MAX_Y_DISTANCE_def KERF_def
  MIN_X_SPACING_def MAX_X_SPACING_def MIN_Y_SPACING_def MAX_Y_SPACING_def DEF_LINE_HEIGHT_def

lemmas dec_defs = float_dec_def int_dec_def unsigned_dec_def nat_dec_def digit_val_def

lemmas init_defs = TestParams_init_def SpeedDim_init_def PowerDim_init_def DistanceDim_init_def
  Dimension_init_def Dimension_reset_def TestParams_axes_def max_by_count_def
  TestParams_xIncr_def TestParams_yIncr_def axis_name_def

lemmas run_defs = main_program_def generate_def TestParams_nextX_def TestParams_nextY_def
  get_dim_def Dimension_next_def round2_def Let_def upt_rec








lemma Dimension_init_InrD:
  assumes "Dimension_init pfloat pint s = Inr d"
  obtains r a b c mn mx cnt where
    "str_split CHR '','' s = [r, c]" "str_split CHR '':'' r = [a, b]"
    "pfloat a = Some mn" "pfloat b = Some mx" "pint c = Some cnt"
    "d = \<lparr>name = ''UNINITIALIZED'', val = mn, minVal = mn, maxVal = mx, count = cnt,
             incr = (if cnt > 1 then (mx - mn) / real_of_int (cnt - 1) else 0),
             fixed = (cnt = 1 \<or> mn = mx), indx = 0\<rparr>"
  using assms unfolding Dimension_init_def Dimension_reset_def
  by (auto split: list.splits option.splits)

section \<open>Construction of a Dimension\<close>






section \<open>Reset and next\<close>

lemma Dimension_next_reset: "Dimension_reset (snd (Dimension_next d)) = Dimension_reset d"
  by (simp add: Dimension_next_def Dimension_reset_def Let_def)

lemma next_calls_reset: "Dimension_reset (snd (next_calls k d)) = Dimension_reset d"
proof (induction k arbitrary: d)
  case 0
  show ?case by simp
next
  case (Suc k)
  obtain r d1 where n: "Dimension_next d = (r, d1)" by (cases "Dimension_next d")
  with Dimension_next_reset [of d] have d1: "Dimension_reset d1 = Dimension_reset d" by simp
  show ?case
  proof (cases r)
    case (Inl e)
    with n d1 show ?thesis by simp
  next
    case (Inr v)
    obtain r2 d2 where m: "next_calls k d1 = (r2, d2)" by (cases "next_calls k d1")
    with Suc.IH [of d1] d1 have "Dimension_reset d2 = Dimension_reset d" by simp
    with n Inr m show ?thesis by (cases r2) simp_all
  qed
qed

lemma Dimension_init_reset:
  assumes "Dimension_init pfloat pint s = Inr d"
  shows "Dimension_reset d = d"
  using assms by (rule Dimension_init_InrD) (simp add: Dimension_reset_def)

text \<open>
  Claim C5. After any number of \<open>next()\<close> calls on a constructed Dimension, \<open>reset()\<close>
  followed by \<open>n\<close> calls of \<open>next()\<close> gives the same values, the same exception if one is
  raised, and the same final object as \<open>n\<close> calls of \<open>next()\<close> on the object as constructed.
\<close>

theorem reset_then_next_as_fresh:
  assumes "Dimension_init pfloat pint s = Inr d"
  shows "next_calls n (Dimension_reset (snd (next_calls k d))) = next_calls n d"
  using assms by (simp add: next_calls_reset Dimension_init_reset)

theorem reset_then_next_as_fresh_witness:
  "Dimension_init float_dec int_dec ''0:1,3'' =
     Inr \<lparr>name = ''UNINITIALIZED'', val = 0, minVal = 0, maxVal = 1, count = 3,
          incr = 1 / 2, fixed = False, indx = 0\<rparr> \<and>
   next_calls (Suc (Suc 0)) (Dimension_reset (snd (next_calls (Suc 0)
       \<lparr>name = ''UNINITIALIZED'', val = 0, minVal = 0, maxVal = 1, count = 3,
          incr = 1 / 2, fixed = False, indx = 0\<rparr>))) =
     (Inr [1 / 2, 1],
       \<lparr>name = ''UNINITIALIZED'', val = 1, minVal = 0, maxVal = 1, count = 3,
          incr = 1 / 2, fixed = False, indx = 2\<rparr>)"
proof -
  have i: "Dimension_init float_dec int_dec ''0:1,3'' =
     Inr \<lparr>name = ''UNINITIALIZED'', val = 0, minVal = 0, maxVal = 1, count = 3,
          incr = 1 / 2, fixed = False, indx = 0\<rparr>"
    by (simp add: Dimension_init_def Dimension_reset_def dec_defs)
  show ?thesis
    using i reset_then_next_as_fresh [OF i, of "Suc (Suc 0)" "Suc 0"]
    by (simp add: Dimension_next_def round2_def Let_def)
qed

section \<open>The domain bounds of speed, power and distance\<close>

text \<open>
  Claim C2, as the code has it. When the string parses and the minimum is below the domain
  minimum, or else the maximum is above the domain maximum, the construction raises
  \<open>InputArgumentError\<close> with a message whose text says which bound was violated (the
  minimum is tested first). The messages of both speed bounds, of both distance bounds and
  of the power minimum consist of that text and of the domain limit of that bound, and of
  nothing else, so none of them carries the offending value. For the power maximum only
  the text of the message is stated here.
\<close>

theorem bounded_dims_messages:
  assumes "Dimension_init pfloat pint s = Inr d"
  shows "(minVal d < MIN_XY_SPEED \<longrightarrow>
            SpeedDim_init pfloat pint s = Inl (InputArgumentError
              [Text ''Minimum speed to slow (< '', Num MIN_XY_SPEED, Text '')''])) \<and>
         (MIN_XY_SPEED \<le> minVal d \<and> MAX_XY_SPEED < maxVal d \<longrightarrow>
            SpeedDim_init pfloat pint s = Inl (InputArgumentError
              [Text ''Maximum speed to fast (> '', Num MAX_XY_SPEED, Text '')''])) \<and>
         (minVal d < MIN_POWER \<longrightarrow>
            PowerDim_init pfloat pint s = Inl (InputArgumentError
              [Text ''Minimum power too low (< '', Num MIN_POWER, Text '')''])) \<and>
         (MIN_POWER \<le> minVal d \<and> MAX_POWER < maxVal d \<longrightarrow>
            (\<exists>lim. PowerDim_init pfloat pint s = Inl (InputArgumentError
              [Text ''Maximum power too high (> '', Num lim, Text '')'']))) \<and>
         (minVal d < MIN_Z_DISTANCE \<longrightarrow>
            DistanceDim_init pfloat pint s = Inl (InputArgumentError
              [Text ''Minimum distance too close (< '', Num MIN_Z_DISTANCE, Text '')''])) \<and>
         (MIN_Z_DISTANCE \<le> minVal d \<and> MAX_Z_DISTANCE < maxVal d \<longrightarrow>
            DistanceDim_init pfloat pint s = Inl (InputArgumentError
              [Text ''Maximum distance too far (> '', Num MAX_Z_DISTANCE, Text '')'']))"
  using assms by (simp add: SpeedDim_init_def PowerDim_init_def DistanceDim_init_def)

theorem bounded_dims_messages_witness:
  "SpeedDim_init float_dec int_dec ''50:6000,1'' = Inl (InputArgumentError
      [Text ''Minimum speed to slow (< '', Num MIN_XY_SPEED, Text '')'']) \<and>
   DistanceDim_init float_dec int_dec ''50:6000,1'' = Inl (InputArgumentError
      [Text ''Maximum distance too far (> '', Num MAX_Z_DISTANCE, Text '')''])"
proof -
  have i: "Dimension_init float_dec int_dec ''50:6000,1'' =
     Inr \<lparr>name = ''UNINITIALIZED'', val = 50, minVal = 50, maxVal = 6000, count = 1,
          incr = 0, fixed = True, indx = 0\<rparr>"
    by (simp add: Dimension_init_def Dimension_reset_def dec_defs)
  show ?thesis
    using bounded_dims_messages [OF i] by (simp add: machine_consts)
qed

text \<open>
  Claim C2 as stated fails: the message for the speed \<open>50:200,1\<close>, whose minimum 50 is
  below the domain minimum 100, does not name the offending value 50.
\<close>

theorem speed_message_omits_offending_value:
  "SpeedDim_init float_dec int_dec ''50:200,1'' = Inl (InputArgumentError
      [Text ''Minimum speed to slow (< '', Num MIN_XY_SPEED, Text '')'']) \<and>
   Num 50 \<notin> set [Text ''Minimum speed to slow (< '', Num MIN_XY_SPEED, Text '')'']"
  by (simp add: SpeedDim_init_def Dimension_init_def Dimension_reset_def dec_defs machine_consts)

text \<open>
  The number in the message of the power maximum: for \<open>0:20000,1\<close> it is
  \<open>MIN_POWER\<close>, that is 0, while the bound that was violated is \<open>MAX_POWER\<close>.
\<close>

lemma power_max_message_names_minimum:
  "PowerDim_init float_dec int_dec ''0:20000,1'' = Inl (InputArgumentError
      [Text ''Maximum power too high (> '', Num 0, Text '')'']) \<and> MAX_POWER = 10000"
  by (simp add: PowerDim_init_def Dimension_init_def Dimension_reset_def dec_defs machine_consts)

section \<open>The values of next\<close>











section \<open>Two runs of the whole program\<close>

text \<open>
  Claim C8. For speed \<open>750:750,1\<close>, power \<open>500:1500,3\<close> and distance \<open>10:10,1\<close> the
  plan has power as its column axis, no row axis, 3 columns and 1 row, and the program
  composes exactly three cuts, with powers 500, 1000 and 1500 in this order (\<open>M03\<close>), each
  at feed rate 750 (\<open>G01\<close>), and every move keeps the distance 10 (\<open>G00\<close>).
\<close>

theorem end_to_end_example:
  "map_sum id (\<lambda>t. (xDim t, yDim t, numCols t, numRows t))
     (TestParams_init float_dec int_dec ''750:750,1'' ''500:1500,3'' ''10:10,1''
        DEF_LINE_HEIGHT) = Inr (Some PowerRef, None, 3, 1) \<and>
   main_program float_dec int_dec ''750:750,1'' ''500:1500,3'' ''10:10,1'' =
     Inr [G21, G90, G00 0 0 10,
          M03 500, G01 0 20 750, M05, G00 10 0 10,
          M03 1000, G01 10 20 750, M05, G00 20 0 10,
          M03 1500, G01 20 20 750, M05,
          G00 0 0 10]"
proof (intro conjI)
  show "map_sum id (\<lambda>t. (xDim t, yDim t, numCols t, numRows t))
     (TestParams_init float_dec int_dec ''750:750,1'' ''500:1500,3'' ''10:10,1''
        DEF_LINE_HEIGHT) = Inr (Some PowerRef, None, 3, 1)"
    by (simp add: init_defs dec_defs machine_consts)
  show "main_program float_dec int_dec ''750:750,1'' ''500:1500,3'' ''10:10,1'' =
     Inr [G21, G90, G00 0 0 10,
          M03 500, G01 0 20 750, M05, G00 10 0 10,
          M03 1000, G01 10 20 750, M05, G00 20 0 10,
          M03 1500, G01 20 20 750, M05,
          G00 0 0 10]"
    by (simp add: init_defs dec_defs machine_consts run_defs)
qed

text \<open>
  Claim C3 at speed \<open>100:200,6\<close>, power \<open>0:1000,7\<close>, distance \<open>10:10,1\<close>. The plan has
  6 rows, so the row spacing computed from the travel is \<open>(150 - 20) / 5 = 26\<close>, which
  passes the minimum test and does not exceed \<open>lineHeight + MAX_Y_SPACING = 30\<close>. The code
  compares it with \<open>MAX_Y_SPACING\<close> alone and sets the spacing to 30, so the pattern is 170
  high, above the 150 of \<open>MAX_Y_DISTANCE\<close>.
\<close>

theorem six_rows_spacing:
  "map_sum id (\<lambda>t. (numRows t, yIncr t, height t))
     (TestParams_init float_dec int_dec ''100:200,6'' ''0:1000,7'' ''10:10,1''
        DEF_LINE_HEIGHT) = Inr (6, 30, 170) \<and>
   (MAX_Y_DISTANCE - DEF_LINE_HEIGHT) / real_of_int (6 - 1) = 26 \<and>
   DEF_LINE_HEIGHT + MAX_Y_SPACING = 30 \<and> MAX_Y_DISTANCE = 150"
  by (simp add: init_defs dec_defs machine_consts)

section \<open>The plan: axes and spacing\<close>

lemma num_var_length:
  "int (length [SpeedRef, PowerRef, DistanceRef]) -
     sum_list (map (\<lambda>b. if b then 1 else 0) [fixed sp, fixed pw, fixed ds]) =
   int (length (filter (\<lambda>dim. \<not> fixed (dim_of sp pw ds dim))
                  [SpeedRef, PowerRef, DistanceRef]))"
  by (cases "fixed sp"; cases "fixed pw"; cases "fixed ds") simp_all

lemma TestParams_init_InrD:
  assumes "TestParams_init pfloat pint s1 s2 s3 lh = Inr t"
  obtains sp pw ds where
    "SpeedDim_init pfloat pint s1 = Inr sp"
    "PowerDim_init pfloat pint s2 = Inr pw"
    "DistanceDim_init pfloat pint s3 = Inr ds"
    "speed t = sp" "power t = pw" "distance t = ds" "lineHeight t = lh"
    "varDims t = filter (\<lambda>dim. \<not> fixed (dim_of sp pw ds dim)) [SpeedRef, PowerRef, DistanceRef]"
    "numVarDims t = int (length (varDims t))"
    "numVarDims t < 3"
    "TestParams_axes (dim_of sp pw ds) (varDims t) (numVarDims t) =
       Inr ((xDim t, yDim t), (numRows t, numCols t))"
    "TestParams_xIncr (dim_of sp pw ds) (numCols t) (xDim t) = Inr (xIncr t)"
    "TestParams_yIncr (dim_of sp pw ds) lh (numRows t) (yDim t) = Inr (yIncr t)"
proof -
  from assms obtain sp where sp: "SpeedDim_init pfloat pint s1 = Inr sp"
    by (cases "SpeedDim_init pfloat pint s1") (simp_all add: TestParams_init_def)
  from assms sp obtain pw where pw: "PowerDim_init pfloat pint s2 = Inr pw"
    by (cases "PowerDim_init pfloat pint s2") (simp_all add: TestParams_init_def)
  from assms sp pw obtain ds where ds: "DistanceDim_init pfloat pint s3 = Inr ds"
    by (cases "DistanceDim_init pfloat pint s3") (simp_all add: TestParams_init_def)
  define g where "g = dim_of sp pw ds"
  define vds where "vds = filter (\<lambda>dim. \<not> fixed (g dim)) [SpeedRef, PowerRef, DistanceRef]"
  define nVar where "nVar = int (length vds)"
  have nv: "int (length [SpeedRef, PowerRef, DistanceRef]) -
     sum_list (map (\<lambda>b. if b then 1 else 0) [fixed sp, fixed pw, fixed ds]) = nVar"
    unfolding nVar_def vds_def g_def by (rule num_var_length)
  from assms have *: "(if nVar \<ge> 3 then
        Inl (InputArgumentError
               [Text ''Too many free dimensions, at least one must be fixed''])
      else
     (case TestParams_axes g vds nVar of
        Inl e \<Rightarrow> Inl e
      | Inr ((xd, yd), (nRows, nCols)) \<Rightarrow>
     (case TestParams_xIncr g nCols xd of
        Inl e \<Rightarrow> Inl e
      | Inr xi \<Rightarrow>
     (case TestParams_yIncr g lh nRows yd of
        Inl e \<Rightarrow> Inl e
      | Inr yi \<Rightarrow>
          Inr \<lparr>speed = sp, power = pw, distance = ds, lineHeight = lh,
               dims = [SpeedRef, PowerRef, DistanceRef], varDims = vds,
               numFixedDims = sum_list (map (\<lambda>b. if b then 1 else 0) [fixed sp, fixed pw, fixed ds]),
               numVarDims = nVar,
               numRows = nRows, numCols = nCols, xDim = xd, yDim = yd,
               xIncr = xi, yIncr = yi,
               width = (if nCols > 1 then xi * real_of_int (nCols - 1) + KERF else KERF),
               height = (if nRows > 1 then yi * real_of_int (nRows - 1) + lh
                         else lh)\<rparr>)))) = Inr t"
    unfolding TestParams_init_def sp pw ds sum.case Let_def g_def [symmetric]
      vds_def [symmetric] nv by simp
  then have lt: "nVar < 3" by (simp split: if_splits)
  with * obtain xd yd nRows nCols where ax: "TestParams_axes g vds nVar = Inr ((xd, yd), (nRows, nCols))"
    by (cases "TestParams_axes g vds nVar") (auto split: prod.splits)
  with * lt obtain xi where xi: "TestParams_xIncr g nCols xd = Inr xi"
    by (cases "TestParams_xIncr g nCols xd") auto
  with * lt ax obtain yi where yi: "TestParams_yIncr g lh nRows yd = Inr yi"
    by (cases "TestParams_yIncr g lh nRows yd") auto
  from * lt ax xi yi have t: "t = \<lparr>speed = sp, power = pw, distance = ds, lineHeight = lh,
               dims = [SpeedRef, PowerRef, DistanceRef], varDims = vds,
               numFixedDims = sum_list (map (\<lambda>b. if b then 1 else 0) [fixed sp, fixed pw, fixed ds]),
               numVarDims = nVar,
               numRows = nRows, numCols = nCols, xDim = xd, yDim = yd,
               xIncr = xi, yIncr = yi,
               width = (if nCols > 1 then xi * real_of_int (nCols - 1) + KERF else KERF),
               height = (if nRows > 1 then yi * real_of_int (nRows - 1) + lh
                         else lh)\<rparr>"
    by simp
  have f: "speed t = sp" "power t = pw" "distance t = ds" "lineHeight t = lh"
    "varDims t = vds" "numVarDims t = nVar" "numRows t = nRows" "numCols t = nCols"
    "xDim t = xd" "yDim t = yd" "xIncr t = xi" "yIncr t = yi"
    by (simp_all add: t)
  show thesis
  proof (rule that [OF sp pw ds f(1-4)])
    show "varDims t =
        filter (\<lambda>dim. \<not> fixed (dim_of sp pw ds dim)) [SpeedRef, PowerRef, DistanceRef]"
      unfolding f(5) vds_def g_def ..
    show "numVarDims t = int (length (varDims t))"
      unfolding f(5,6) nVar_def ..
    show "numVarDims t < 3"
      unfolding f(6) by (rule lt)
    show "TestParams_axes (dim_of sp pw ds) (varDims t) (numVarDims t) =
       Inr ((xDim t, yDim t), (numRows t, numCols t))"
      unfolding f g_def [symmetric] by (rule ax)
    show "TestParams_xIncr (dim_of sp pw ds) (numCols t) (xDim t) = Inr (xIncr t)"
      unfolding f g_def [symmetric] by (rule xi)
    show "TestParams_yIncr (dim_of sp pw ds) lh (numRows t) (yDim t) = Inr (yIncr t)"
      unfolding f g_def [symmetric] by (rule yi)
  qed
qed

lemma get_dim_plan:
  "speed t = sp \<Longrightarrow> power t = pw \<Longrightarrow> distance t = ds \<Longrightarrow> get_dim t = dim_of sp pw ds"
  by (auto simp: get_dim_def fun_eq_iff)

lemma varDims_two:
  assumes "filter (\<lambda>dim. \<not> fixed (g dim)) [SpeedRef, PowerRef, DistanceRef] = vds"
    and "length vds = 2"
  obtains a b where "vds = [a, b]" "a \<noteq> b"
  using assms by (auto split: if_splits)

lemma axes_two:
  "a \<noteq> b \<Longrightarrow> TestParams_axes g [a, b] 2 =
     Inr (if count (g a) < count (g b)
          then ((Some b, Some a), (count (g a), count (g b)))
          else ((Some a, Some b), (count (g b), count (g a))))"
  by (simp add: TestParams_axes_def max_by_count_def)

text \<open>
  The row spacing as the code computes it: once the minimum test has passed, the spacing
  is replaced by \<open>lineHeight + MAX_Y_SPACING\<close> whenever it is above \<open>MAX_Y_SPACING\<close>.
\<close>

lemma row_spacing_as_coded:
  assumes init: "TestParams_init pfloat pint s1 s2 s3 lh = Inr t"
    and rows: "2 \<le> numRows t"
  shows "\<not> (MAX_Y_DISTANCE - lh) / real_of_int (numRows t - 1) - lh < MIN_Y_SPACING \<and>
         yIncr t =
           (if (MAX_Y_DISTANCE - lh) / real_of_int (numRows t - 1) > MAX_Y_SPACING
            then lh + MAX_Y_SPACING
            else (MAX_Y_DISTANCE - lh) / real_of_int (numRows t - 1))"
proof -
  from init obtain sp pw ds where
    "TestParams_yIncr (dim_of sp pw ds) lh (numRows t) (yDim t) = Inr (yIncr t)"
    by (rule TestParams_init_InrD)
  with rows show ?thesis
    by (auto simp: TestParams_yIncr_def Let_def split: if_splits sum.splits)
qed

text \<open>
  Claim C6. In a constructed plan with exactly two variable parameters, if one of them has
  a larger count than the other, it is the column axis and the other is the row axis;
  the number of columns is the larger count and the number of rows the smaller one.
\<close>

theorem larger_count_is_column:
  assumes init: "TestParams_init pfloat pint s1 s2 s3 lh = Inr t"
    and two: "numVarDims t = 2"
    and mem: "big \<in> set (varDims t)" "small \<in> set (varDims t)"
    and less: "count (get_dim t small) < count (get_dim t big)"
  shows "xDim t = Some big \<and> yDim t = Some small \<and>
         numCols t = count (get_dim t big) \<and> numRows t = count (get_dim t small)"
proof -
  from init obtain sp pw ds where
    d: "speed t = sp" "power t = pw" "distance t = ds" and
    v: "varDims t = filter (\<lambda>dim. \<not> fixed (dim_of sp pw ds dim)) [SpeedRef, PowerRef, DistanceRef]" and
    n: "numVarDims t = int (length (varDims t))" and
    ax: "TestParams_axes (dim_of sp pw ds) (varDims t) (numVarDims t) =
       Inr ((xDim t, yDim t), (numRows t, numCols t))"
    by (rule TestParams_init_InrD)
  have g: "get_dim t = dim_of sp pw ds" using d by (rule get_dim_plan)
  from two n have "length (varDims t) = 2" by simp
  with v [symmetric] obtain a b where ab: "varDims t = [a, b]" "a \<noteq> b"
    by (rule varDims_two)
  from ax have "(if count (get_dim t a) < count (get_dim t b)
          then ((Some b, Some a), (count (get_dim t a), count (get_dim t b)))
          else ((Some a, Some b), (count (get_dim t b), count (get_dim t a)))) =
        ((xDim t, yDim t), (numRows t, numCols t))"
    unfolding ab two g [symmetric] by (simp add: axes_two [OF ab(2)])
  with mem less ab show ?thesis
    by (auto split: if_splits)
qed

theorem larger_count_is_column_witness:
  "map_sum id (\<lambda>t. (xDim t, yDim t, numCols t, numRows t))
     (TestParams_init float_dec int_dec ''100:400,4'' ''0:800,9'' ''10:10,1''
        DEF_LINE_HEIGHT) = Inr (Some PowerRef, Some SpeedRef, 9, 4)"
proof -
  obtain t where t: "TestParams_init float_dec int_dec ''100:400,4'' ''0:800,9'' ''10:10,1''
        DEF_LINE_HEIGHT = Inr t"
    and f: "numVarDims t = 2" "varDims t = [SpeedRef, PowerRef]"
      "count (get_dim t SpeedRef) = 4" "count (get_dim t PowerRef) = 9"
    by (simp add: init_defs dec_defs machine_consts get_dim_def)
  from larger_count_is_column [OF t f(1), of PowerRef SpeedRef] f t show ?thesis
    by simp
qed

text \<open>
  Claim C10. In a constructed plan whose variable parameters are \<open>a\<close> and \<open>b\<close>, in this
  order, with equal counts, \<open>a\<close> is the column axis and \<open>b\<close> the row axis; the order is
  the one of speed, power, distance.
\<close>

theorem equal_counts_first_is_column:
  assumes init: "TestParams_init pfloat pint s1 s2 s3 lh = Inr t"
    and two: "varDims t = [a, b]"
    and eq: "count (get_dim t a) = count (get_dim t b)"
  shows "xDim t = Some a \<and> yDim t = Some b \<and>
         [a, b] = filter (\<lambda>dim. \<not> fixed (get_dim t dim)) [SpeedRef, PowerRef, DistanceRef]"
proof -
  from init obtain sp pw ds where
    d: "speed t = sp" "power t = pw" "distance t = ds" and
    v: "varDims t = filter (\<lambda>dim. \<not> fixed (dim_of sp pw ds dim)) [SpeedRef, PowerRef, DistanceRef]" and
    n: "numVarDims t = int (length (varDims t))" and
    ax: "TestParams_axes (dim_of sp pw ds) (varDims t) (numVarDims t) =
       Inr ((xDim t, yDim t), (numRows t, numCols t))"
    by (rule TestParams_init_InrD)
  have g: "get_dim t = dim_of sp pw ds" using d by (rule get_dim_plan)
  from two n have n2: "numVarDims t = 2" by simp
  from v two have "filter (\<lambda>dim. \<not> fixed (dim_of sp pw ds dim)) [SpeedRef, PowerRef, DistanceRef] = [a, b]"
    by simp
  then have ne: "a \<noteq> b" by (auto split: if_splits)
  from ax have "(if count (get_dim t a) < count (get_dim t b)
          then ((Some b, Some a), (count (get_dim t a), count (get_dim t b)))
          else ((Some a, Some b), (count (get_dim t b), count (get_dim t a)))) =
        ((xDim t, yDim t), (numRows t, numCols t))"
    unfolding two n2 g [symmetric] by (simp add: axes_two [OF ne])
  with eq have "xDim t = Some a \<and> yDim t = Some b" by simp
  moreover from v two have "[a, b] = filter (\<lambda>dim. \<not> fixed (get_dim t dim)) [SpeedRef, PowerRef, DistanceRef]"
    unfolding g by simp
  ultimately show ?thesis by blast
qed

theorem equal_counts_first_is_column_witness:
  "map_sum id (\<lambda>t. (varDims t, xDim t, yDim t))
     (TestParams_init float_dec int_dec ''100:400,3'' ''0:800,1'' ''10:30,3''
        DEF_LINE_HEIGHT) = Inr ([SpeedRef, DistanceRef], Some SpeedRef, Some DistanceRef)"
proof -
  obtain t where t: "TestParams_init float_dec int_dec ''100:400,3'' ''0:800,1'' ''10:30,3''
        DEF_LINE_HEIGHT = Inr t"
    and f: "varDims t = [SpeedRef, DistanceRef]"
      "count (get_dim t SpeedRef) = 3" "count (get_dim t DistanceRef) = 3"
    by (simp add: init_defs dec_defs machine_consts get_dim_def)
  from equal_counts_first_is_column [OF t f(1)] f t show ?thesis
    by simp
qed

lemma axes_cols:
  assumes v: "filter (\<lambda>dim. \<not> fixed (g dim)) [SpeedRef, PowerRef, DistanceRef] = vds"
    and lt: "length vds < 3"
  shows "\<exists>xd yd nRows.
           TestParams_axes g vds (int (length vds)) =
             Inr ((xd, yd), (nRows, (if vds = [] then 1 else Max ((\<lambda>r. count (g r)) ` set vds)))) \<and>
           (vds \<noteq> [] \<longrightarrow> xd \<noteq> None)"
proof -
  consider "vds = []" | a where "vds = [a]" | a b where "vds = [a, b]" "a \<noteq> b"
    using v lt by (auto split: if_splits)
  then show ?thesis
  proof cases
    case 1
    then show ?thesis by (simp add: TestParams_axes_def)
  next
    case 2
    then show ?thesis by (simp add: TestParams_axes_def)
  next
    case 3
    then show ?thesis by (simp add: axes_two max_def)
  qed
qed

text \<open>
  Claim C7. Let the three parameters be constructed, not all of them variable, and let
  \<open>n\<close> be the number of columns that the axis assignment gives: 1 without a variable
  parameter, otherwise the largest count of a variable parameter. The construction of the
  plan raises the error of too many columns exactly when \<open>n > 1\<close> and
  \<open>MAX_X_DISTANCE / (n - 1) - KERF < MIN_X_SPACING\<close>; a constructed plan has \<open>n\<close> columns
  and, when \<open>n > 1\<close>, the column spacing \<open>MAX_X_DISTANCE / (n - 1)\<close> cut down to
  \<open>MAX_X_SPACING\<close> where it exceeds it. The constants are 150, 0.2, 1 and 10.
\<close>

theorem column_spacing:
  assumes sp: "SpeedDim_init pfloat pint s1 = Inr sp"
    and pw: "PowerDim_init pfloat pint s2 = Inr pw"
    and ds: "DistanceDim_init pfloat pint s3 = Inr ds"
    and v: "vds = filter (\<lambda>dim. \<not> fixed (dim_of sp pw ds dim)) [SpeedRef, PowerRef, DistanceRef]"
    and lt: "length vds < 3"
    and n: "n = (if vds = [] then 1 else Max ((\<lambda>r. count (dim_of sp pw ds r)) ` set vds))"
  shows "((\<exists>nm. TestParams_init pfloat pint s1 s2 s3 lh =
              Inl (InputArgumentError [Text ''Too many columns; reduce '', Str nm, Text '' count'']))
          \<longleftrightarrow> 1 < n \<and> MAX_X_DISTANCE / real_of_int (n - 1) - KERF < MIN_X_SPACING) \<and>
         (\<forall>t. TestParams_init pfloat pint s1 s2 s3 lh = Inr t \<longrightarrow>
              numCols t = n \<and>
              (1 < n \<longrightarrow> xIncr t = min (MAX_X_DISTANCE / real_of_int (n - 1)) MAX_X_SPACING)) \<and>
         MAX_X_DISTANCE = 150 \<and> KERF = 2 / 10 \<and> MIN_X_SPACING = 1 \<and> MAX_X_SPACING = 10"
proof -
  define g where "g = dim_of sp pw ds"
  have nv: "int (length [SpeedRef, PowerRef, DistanceRef]) -
     sum_list (map (\<lambda>b. if b then 1 else 0) [fixed sp, fixed pw, fixed ds]) = int (length vds)"
    unfolding v by (rule num_var_length)
  from axes_cols [OF v [symmetric, folded g_def] lt] obtain xd yd nRows where
    ax: "TestParams_axes g vds (int (length vds)) = Inr ((xd, yd), (nRows, n))"
    and xd: "vds \<noteq> [] \<longrightarrow> xd \<noteq> None"
    unfolding n g_def by blast
  have init: "TestParams_init pfloat pint s1 s2 s3 lh =
     (case TestParams_xIncr g n xd of
        Inl e \<Rightarrow> Inl e
      | Inr xi \<Rightarrow>
     (case TestParams_yIncr g lh nRows yd of
        Inl e \<Rightarrow> Inl e
      | Inr yi \<Rightarrow>
          Inr \<lparr>speed = sp, power = pw, distance = ds, lineHeight = lh,
               dims = [SpeedRef, PowerRef, DistanceRef], varDims = vds,
               numFixedDims = sum_list (map (\<lambda>b. if b then 1 else 0) [fixed sp, fixed pw, fixed ds]),
               numVarDims = int (length vds),
               numRows = nRows, numCols = n, xDim = xd, yDim = yd,
               xIncr = xi, yIncr = yi,
               width = (if n > 1 then xi * real_of_int (n - 1) + KERF else KERF),
               height = (if nRows > 1 then yi * real_of_int (nRows - 1) + lh
                         else lh)\<rparr>))"
    unfolding TestParams_init_def sp pw ds sum.case Let_def g_def [symmetric]
      v [symmetric, folded g_def] nv using lt ax by simp
  have n1: "vds \<noteq> []" if "1 < n" using that n by (cases "vds = []") simp_all
  show ?thesis
  proof (cases "1 < n \<and> MAX_X_DISTANCE / real_of_int (n - 1) - KERF < MIN_X_SPACING")
    case True
    with n1 xd obtain r where r: "xd = Some r" by auto
    from True r have "TestParams_xIncr g n xd =
        Inl (InputArgumentError [Text ''Too many columns; reduce '', Str (name (g r)), Text '' count''])"
      by (simp add: TestParams_xIncr_def axis_name_def)
    with True show ?thesis
      unfolding init by (simp add: machine_consts)
  next
    case False
    then have xi: "TestParams_xIncr g n xd =
        Inr (if 1 < n then min (MAX_X_DISTANCE / real_of_int (n - 1)) MAX_X_SPACING else 0)"
      by (auto simp: TestParams_xIncr_def Let_def min_def)
    have "\<not> (\<exists>nm. TestParams_init pfloat pint s1 s2 s3 lh =
              Inl (InputArgumentError [Text ''Too many columns; reduce '', Str nm, Text '' count'']))"
      unfolding init xi
      by (auto simp: TestParams_yIncr_def Let_def axis_name_def split: sum.splits option.splits if_splits)
    moreover have "\<forall>t. TestParams_init pfloat pint s1 s2 s3 lh = Inr t \<longrightarrow>
              numCols t = n \<and>
              (1 < n \<longrightarrow> xIncr t = min (MAX_X_DISTANCE / real_of_int (n - 1)) MAX_X_SPACING)"
      unfolding init xi by (auto split: sum.splits)
    ultimately show ?thesis
      using False by (simp add: machine_consts)
  qed
qed

theorem column_spacing_witness:
  "map_sum id (\<lambda>t. (numCols t, xIncr t))
     (TestParams_init float_dec int_dec ''750:750,1'' ''500:1500,3'' ''10:10,1''
        DEF_LINE_HEIGHT) = Inr (3, 10) \<and>
   (\<exists>nm. TestParams_init float_dec int_dec ''750:750,1'' ''0:1500,127'' ''10:10,1''
            DEF_LINE_HEIGHT =
          Inl (InputArgumentError
                 [Text ''Too many columns; reduce '', Str nm, Text '' count'']))"
proof -
  have sp: "SpeedDim_init float_dec int_dec ''750:750,1'' =
      Inr \<lparr>name = ''UNINITIALIZED'', val = 750, minVal = 750, maxVal = 750,
                   count = 1, incr = 0, fixed = True, indx = 0\<rparr>"
    by (simp add: init_defs dec_defs machine_consts)
  have pw: "PowerDim_init float_dec int_dec ''500:1500,3'' =
      Inr \<lparr>name = ''UNINITIALIZED'', val = 500, minVal = 500, maxVal = 1500,
                   count = 3, incr = 500, fixed = False, indx = 0\<rparr>"
    by (simp add: init_defs dec_defs machine_consts)
  have pw2: "PowerDim_init float_dec int_dec ''0:1500,127'' =
      Inr \<lparr>name = ''UNINITIALIZED'', val = 0, minVal = 0, maxVal = 1500,
                   count = 127, incr = 1500 / 126, fixed = False, indx = 0\<rparr>"
    by (simp add: init_defs dec_defs machine_consts)
  have ds: "DistanceDim_init float_dec int_dec ''10:10,1'' =
      Inr \<lparr>name = ''UNINITIALIZED'', val = 10, minVal = 10, maxVal = 10,
                   count = 1, incr = 0, fixed = True, indx = 0\<rparr>"
    by (simp add: init_defs dec_defs machine_consts)
  obtain t where t: "TestParams_init float_dec int_dec ''750:750,1'' ''500:1500,3''
      ''10:10,1'' DEF_LINE_HEIGHT = Inr t"
    by (simp add: init_defs dec_defs machine_consts)
  have "numCols t = 3 \<and> xIncr t = 10"
    using column_spacing [OF sp pw ds refl _ refl, of DEF_LINE_HEIGHT] t
    by (simp add: machine_consts)
  with t have a: "map_sum id (\<lambda>t. (numCols t, xIncr t))
     (TestParams_init float_dec int_dec ''750:750,1'' ''500:1500,3'' ''10:10,1''
        DEF_LINE_HEIGHT) = Inr (3, 10)"
    by simp
  have b: "\<exists>nm. TestParams_init float_dec int_dec ''750:750,1'' ''0:1500,127'' ''10:10,1''
            DEF_LINE_HEIGHT =
          Inl (InputArgumentError
                 [Text ''Too many columns; reduce '', Str nm, Text '' count''])"
    using column_spacing [OF sp pw2 ds refl _ refl, of DEF_LINE_HEIGHT]
    by (simp add: machine_consts)
  from a b show ?thesis ..
qed

section \<open>The traversal never asks for too many values\<close>

lemma get_set_dim [simp]:
  "get_dim (set_dim t r d) r' = (if r' = r then d else get_dim t r')"
  by (cases r; cases r') (simp_all add: get_dim_def)

lemma set_dim_fields [simp]:
  "numCols (set_dim t r d) = numCols t" "numRows (set_dim t r d) = numRows t"
  "xDim (set_dim t r d) = xDim t" "yDim (set_dim t r d) = yDim t"
  "xIncr (set_dim t r d) = xIncr t" "yIncr (set_dim t r d) = yIncr t"
  "lineHeight (set_dim t r d) = lineHeight t"
  by (cases r; simp)+

lemma set_dim_twice [simp]: "set_dim (set_dim t r d) r d' = set_dim t r d'"
  by (cases r) simp_all

lemma x_moved_refl: "x_moved t t"
  by (simp add: x_moved_def)

lemma x_moved_fields:
  assumes "x_moved t t1"
  shows "numCols t1 = numCols t" "numRows t1 = numRows t" "xDim t1 = xDim t" "yDim t1 = yDim t"
  using assms by (auto simp: x_moved_def)

lemma x_moved_trans:
  assumes "x_moved t t1" "x_moved t1 t2"
  shows "x_moved t t2"
proof -
  from assms(1) consider "t1 = t"
    | rx i v where "xDim t = Some rx" "t1 = set_dim t rx ((get_dim t rx)\<lparr>indx := i, val := v\<rparr>)"
    by (auto simp: x_moved_def)
  then show ?thesis
  proof cases
    case 1
    with assms(2) show ?thesis by simp
  next
    case 2
    from assms(2) consider "t2 = t1"
      | i' v' where "t2 = set_dim t1 rx ((get_dim t1 rx)\<lparr>indx := i', val := v'\<rparr>)"
      using 2 by (auto simp: x_moved_def)
    then show ?thesis
    proof cases
      case 1
      with assms(1) show ?thesis by simp
    next
      case 2
      with \<open>t1 = set_dim t rx ((get_dim t rx)\<lparr>indx := i, val := v\<rparr>)\<close>
      have "t2 = set_dim t rx ((get_dim t rx)\<lparr>indx := i', val := v'\<rparr>)"
        by simp
      with \<open>xDim t = Some rx\<close> show ?thesis
        unfolding x_moved_def by blast
    qed
  qed
qed

lemma y_ready_x_moved:
  assumes "y_ready t j" "x_moved t t1"
  shows "y_ready t1 j"
  using assms unfolding y_ready_def x_moved_def by auto

lemma x_ready_x_moved_reset:
  assumes "x_ready t k" "x_moved t t1" "xDim t1 = Some rx"
  shows "x_ready (set_dim t1 rx (Dimension_reset (get_dim t1 rx))) 0"
  using assms unfolding x_ready_def x_moved_def Dimension_reset_def by auto

text \<open>one step of the column axis\<close>

lemma nextX_ok:
  assumes r: "x_ready t (int k)" and lt: "int k < numCols t - 1"
  shows "\<exists>nx t1. TestParams_nextX t = (Inr nx, t1) \<and> x_ready t1 (int (Suc k)) \<and> x_moved t t1"
proof -
  from r lt obtain rx where rx: "xDim t = Some rx" "\<not> fixed (get_dim t rx)"
    "count (get_dim t rx) = numCols t" "indx (get_dim t rx) = int k"
    by (auto simp: x_ready_def)
  define d where "d = get_dim t rx"
  define v where "v = round2 (real_of_int (indx d + 1) *
      ((maxVal d - minVal d) / real_of_int (count d - 1)) + minVal d)"
  have n: "Dimension_next d = (Inr v, d\<lparr>indx := indx d + 1, val := v\<rparr>)"
    using rx lt by (simp add: Dimension_next_def Let_def v_def d_def)
  have nx: "TestParams_nextX t = (Inr v, set_dim t rx (d\<lparr>indx := indx d + 1, val := v\<rparr>))"
    using rx(1) n by (simp add: TestParams_nextX_def d_def)
  have "x_ready (set_dim t rx (d\<lparr>indx := indx d + 1, val := v\<rparr>)) (int (Suc k))"
    using rx by (simp add: x_ready_def d_def)
  moreover have "x_moved t (set_dim t rx (d\<lparr>indx := indx d + 1, val := v\<rparr>))"
    using rx(1) unfolding x_moved_def d_def by blast
  ultimately show ?thesis using nx by blast
qed

lemma col_loop_ok:
  assumes "x_ready t (int k)" "k \<le> n" "n = nat (numCols t)"
  shows "\<exists>t1 out1. col_loop [k..<n] rowBase t out = Inr (t1, out1) \<and> x_moved t t1"
  using assms
proof (induction "n - k" arbitrary: k t out)
  case 0
  then show ?case by (simp add: x_moved_refl)
next
  case (Suc m)
  then have kn: "k < n" by simp
  then have upt: "[k..<n] = k # [Suc k..<n]" by (rule upt_conv_Cons)
  show ?case
  proof (cases "int k < numCols t - 1")
    case True
    from nextX_ok [OF Suc.prems(1) True] obtain nx t1 where
      nx: "TestParams_nextX t = (Inr nx, t1)" and r1: "x_ready t1 (int (Suc k))"
      and m1: "x_moved t t1"
      by blast
    have "m = n - Suc k" using Suc.hyps(2) by simp
    moreover have "Suc k \<le> n" using kn by simp
    moreover have "n = nat (numCols t1)" using Suc.prems(3) x_moved_fields(1) [OF m1] by simp
    ultimately obtain t2 out2 where
      "col_loop [Suc k..<n] rowBase t1
         ((out @ [M03 (val (power t)), G01 (real k * xIncr t) (rowBase + lineHeight t) (val (speed t)), M05]) @
          [G00 (real k * xIncr t + xIncr t1) rowBase (val (distance t1))]) = Inr (t2, out2)"
      and m2: "x_moved t1 t2"
      using Suc.hyps(1) [OF _ r1] by blast
    with True nx have "col_loop [k..<n] rowBase t out = Inr (t2, out2)"
      unfolding upt by (simp add: Let_def)
    with x_moved_trans [OF m1 m2] show ?thesis by blast
  next
    case False
    with kn Suc.prems(3) have "Suc k = n" by simp
    with False show ?thesis
      unfolding upt by (simp add: Let_def x_moved_refl)
  qed
qed

lemma nextY_ok:
  assumes y: "y_ready t (int j)" and lt: "int j < numRows t - 1"
    and x: "x_ready t0 k" "x_moved t0 t"
  shows "\<exists>ny t2. TestParams_nextY t = (Inr ny, t2) \<and> y_ready t2 (int (Suc j)) \<and>
           x_ready t2 0 \<and> numRows t2 = numRows t"
proof -
  from y lt obtain rx ry where r: "xDim t = Some rx" "yDim t = Some ry" "rx \<noteq> ry"
    "\<not> fixed (get_dim t ry)" "count (get_dim t ry) = numRows t" "indx (get_dim t ry) = int j"
    by (auto simp: y_ready_def)
  define t1 where "t1 = set_dim t rx (Dimension_reset (get_dim t rx))"
  define d where "d = get_dim t ry"
  define v where "v = round2 (real_of_int (indx d + 1) *
      ((maxVal d - minVal d) / real_of_int (count d - 1)) + minVal d)"
  define t2 where "t2 = set_dim t1 ry (d\<lparr>indx := indx d + 1, val := v\<rparr>)"
  have x1: "x_ready t1 0"
    unfolding t1_def using x r(1) by (rule x_ready_x_moved_reset)
  have d1: "get_dim t1 ry = d"
    using r(3) by (simp add: t1_def d_def)
  have n: "Dimension_next d = (Inr v, d\<lparr>indx := indx d + 1, val := v\<rparr>)"
    using r lt by (simp add: Dimension_next_def Let_def v_def d_def)
  have y1: "yDim t1 = Some ry"
    using r(2) by (simp add: t1_def)
  have ny: "TestParams_nextY t = (Inr v, t2)"
    using r(1) y1 n d1 by (simp add: TestParams_nextY_def Let_def t1_def [symmetric] t2_def)
  have x2: "x_ready t2 0"
    using x1 r(1,3) unfolding x_ready_def t2_def t1_def by auto
  have y2: "y_ready t2 (int (Suc j))"
    using r unfolding y_ready_def t2_def t1_def d_def by auto
  have "numRows t2 = numRows t"
    by (simp add: t2_def t1_def)
  with ny x2 y2 show ?thesis by blast
qed

lemma row_loop_ok:
  assumes "x_ready t 0" "y_ready t (int j)" "j \<le> m" "m = nat (numRows t)"
  shows "\<exists>t1 out1. row_loop [j..<m] t out = Inr (t1, out1)"
  using assms
proof (induction "m - j" arbitrary: j t out)
  case 0
  then show ?case by simp
next
  case (Suc w)
  then have jm: "j < m" by simp
  then have upt: "[j..<m] = j # [Suc j..<m]" by (rule upt_conv_Cons)
  from col_loop_ok [of t 0 "nat (numCols t)" "real j * yIncr t" out] Suc.prems(1)
  obtain t1 out1 where
    c: "col_loop [0..<nat (numCols t)] (real j * yIncr t) t out = Inr (t1, out1)"
    and m1: "x_moved t t1"
    by auto
  have rows: "numRows t1 = numRows t" using m1 by (rule x_moved_fields)
  show ?case
  proof (cases "int j < numRows t1 - 1")
    case True
    have "y_ready t1 (int j)" using Suc.prems(2) m1 by (rule y_ready_x_moved)
    from nextY_ok [OF this True Suc.prems(1) m1] obtain ny t2 where
      ny: "TestParams_nextY t1 = (Inr ny, t2)" and y2: "y_ready t2 (int (Suc j))"
      and x2: "x_ready t2 0" and r2: "numRows t2 = numRows t1"
      by blast
    have "w = m - Suc j" using Suc.hyps(2) by simp
    moreover have "Suc j \<le> m" using jm by simp
    moreover have "m = nat (numRows t2)" using Suc.prems(4) rows r2 by simp
    ultimately obtain t3 out3 where
      "row_loop [Suc j..<m] t2
         (out1 @ [G00 0 (real j * yIncr t + yIncr t2) (val (distance t2))]) = Inr (t3, out3)"
      using Suc.hyps(1) [OF _ x2 y2] by blast
    with True c ny show ?thesis
      unfolding upt by (simp add: Let_def)
  next
    case False
    with jm Suc.prems(4) rows have "Suc j = m" by simp
    with False c show ?thesis
      unfolding upt by (simp add: Let_def)
  qed
qed

lemma generate_ok:
  assumes "x_ready t 0" "y_ready t 0"
  shows "\<exists>t1 out. generate t = Inr (t1, out)"
proof -
  from row_loop_ok [of t 0 "nat (numRows t)" "[G21, G90, G00 0 0 (val (distance t))]"] assms
  obtain t1 out1 where
    "row_loop [0..<nat (numRows t)] t [G21, G90, G00 0 0 (val (distance t))] = Inr (t1, out1)"
    by auto
  then show ?thesis by (simp add: generate_def Let_def)
qed

lemma bounded_init_indx:
  "SpeedDim_init pfloat pint s = Inr d \<Longrightarrow> indx d = 0"
  "PowerDim_init pfloat pint s = Inr d \<Longrightarrow> indx d = 0"
  "DistanceDim_init pfloat pint s = Inr d \<Longrightarrow> indx d = 0"
  unfolding SpeedDim_init_def PowerDim_init_def DistanceDim_init_def
  by (auto split: sum.splits if_splits elim: Dimension_init_InrD)

lemma init_ready:
  assumes init: "TestParams_init pfloat pint s1 s2 s3 lh = Inr t"
  shows "x_ready t 0" "y_ready t 0"
proof -
  from init obtain sp pw ds where
    i: "SpeedDim_init pfloat pint s1 = Inr sp" "PowerDim_init pfloat pint s2 = Inr pw"
       "DistanceDim_init pfloat pint s3 = Inr ds" and
    d: "speed t = sp" "power t = pw" "distance t = ds" and
    v: "varDims t = filter (\<lambda>dim. \<not> fixed (dim_of sp pw ds dim)) [SpeedRef, PowerRef, DistanceRef]" and
    n: "numVarDims t = int (length (varDims t))" "numVarDims t < 3" and
    ax: "TestParams_axes (dim_of sp pw ds) (varDims t) (numVarDims t) =
       Inr ((xDim t, yDim t), (numRows t, numCols t))"
    by (rule TestParams_init_InrD)
  have g: "get_dim t = dim_of sp pw ds" using d by (rule get_dim_plan)
  have i0: "indx (get_dim t r) = 0" for r
    unfolding g using bounded_init_indx(1) [OF i(1)] bounded_init_indx(2) [OF i(2)]
      bounded_init_indx(3) [OF i(3)] by (cases r) simp_all
  have nf: "\<not> fixed (get_dim t r)" if "r \<in> set (varDims t)" for r
    using that unfolding v g by (simp only: set_filter mem_Collect_eq) simp
  consider "varDims t = []" | a where "varDims t = [a]"
    | a b where "varDims t = [a, b]" "a \<noteq> b"
    using v n by (auto split: if_splits)
  then have "x_ready t 0 \<and> y_ready t 0"
  proof cases
    case 1
    with ax n show ?thesis
      by (simp add: TestParams_axes_def x_ready_def y_ready_def)
  next
    case 2
    with ax n have "xDim t = Some a" "numRows t = 1" "numCols t = count (get_dim t a)"
      unfolding g by (simp_all add: TestParams_axes_def)
    with nf [of a] i0 [of a] 2 show ?thesis
      by (simp add: x_ready_def y_ready_def)
  next
    case 3
    from n 3 have n2: "numVarDims t = 2" by simp
    from ax have "((xDim t, yDim t), (numRows t, numCols t)) =
        (if count (get_dim t a) < count (get_dim t b)
          then ((Some b, Some a), (count (get_dim t a), count (get_dim t b)))
          else ((Some a, Some b), (count (get_dim t b), count (get_dim t a))))"
      unfolding 3 n2 g [symmetric] by (simp add: axes_two [OF 3(2)])
    then obtain x y where xy: "xDim t = Some x" "yDim t = Some y" "x \<noteq> y"
      "count (get_dim t x) = numCols t" "count (get_dim t y) = numRows t"
      "x \<in> set (varDims t)" "y \<in> set (varDims t)"
      using 3 by (cases "count (get_dim t a) < count (get_dim t b)") auto
    have "x_ready t 0"
      unfolding x_ready_def using xy(1,4) nf [OF xy(6)] i0 [of x] by blast
    moreover have "y_ready t 0"
      unfolding y_ready_def using xy(1,2,3,5) nf [OF xy(7)] i0 [of y] by blast
    ultimately show ?thesis ..
  qed
  then show "x_ready t 0" "y_ready t 0" by simp_all
qed

text \<open>
  Claim C9. On every constructed plan the generation returns: no call of \<open>next()\<close> made
  by the rows-of-columns loops raises, so the test \<open>indx >= count\<close> never succeeds there
  (nor does any other exception occur).
\<close>

theorem traversal_never_exhausts:
  assumes "TestParams_init pfloat pint s1 s2 s3 lh = Inr t"
  shows "\<exists>t1 out. generate t = Inr (t1, out)"
  using init_ready [OF assms] by (rule generate_ok)

theorem traversal_never_exhausts_witness:
  "\<exists>t t1 out.
     TestParams_init float_dec int_dec ''100:200,2'' ''0:1000,3'' ''10:10,1'' DEF_LINE_HEIGHT
       = Inr t \<and> numRows t = 2 \<and> numCols t = 3 \<and> generate t = Inr (t1, out)"
proof -
  obtain t where t: "TestParams_init float_dec int_dec ''100:200,2'' ''0:1000,3'' ''10:10,1''
      DEF_LINE_HEIGHT = Inr t" and n: "numRows t = 2" "numCols t = 3"
    by (simp add: init_defs dec_defs machine_consts)
  from traversal_never_exhausts [OF t] t n show ?thesis by blast
qed

end
